theory Spec2Isabelle
  imports Complex_Main
begin

section \<open>Runtime values\<close>

text \<open>
  The schemas take an \<^verbatim>\<open>unknown\<close>: any JavaScript value. Of a number among the input
  values the schemas use the \<^verbatim>\<open>typeof\<close> tag and the date constructed from it, and these
  numbers are modelled by the integers; a date object carries its time value, \<open>None\<close>
  being the NaN of an invalid date.
\<close>

datatype jsval =
    JUndefined
  | JNull
  | JBoolean bool
  | JNumber int
  | JBigInt int
  | JString string
  | JSymbol string
  | JFunction string
  | JDate "int option"
  | JArray "jsval list"
  | JObject "(string \<times> jsval) list"

text \<open>The \<^verbatim>\<open>typeof\<close> operator.\<close>

fun typeof :: "jsval \<Rightarrow> string" where
  "typeof JUndefined = ''undefined''"
| "typeof JNull = ''object''"
| "typeof (JBoolean b) = ''boolean''"
| "typeof (JNumber n) = ''number''"
| "typeof (JBigInt n) = ''bigint''"
| "typeof (JString s) = ''string''"
| "typeof (JSymbol s) = ''symbol''"
| "typeof (JFunction f) = ''function''"
| "typeof (JDate d) = ''object''"
| "typeof (JArray xs) = ''object''"
| "typeof (JObject kvs) = ''object''"

text \<open>
  \<^verbatim>\<open>toString\<close> of the length of an array and of an index into it. Both are integers from
  0 below \<open>2^32\<close>, and \<^verbatim>\<open>Number.prototype.toString\<close> gives their decimal digits;
  \<open>digits_value\<close> reads the digits back.
\<close>

definition digit :: "nat \<Rightarrow> char" where
  "digit d = ''0123456789'' ! d"

function Nat_toString :: "nat \<Rightarrow> string" where
  "Nat_toString n = (if n < 10 then [digit n] else Nat_toString (n div 10) @ [digit (n mod 10)])"
  by pat_completeness auto
termination
  by (relation "measure id") auto

declare Nat_toString.simps [simp del]

definition digit_value :: "char \<Rightarrow> nat" where
  "digit_value c = of_char c - 48"

definition digits_value :: "string \<Rightarrow> nat" where
  "digits_value ds = foldl (\<lambda>v c. 10 * v + digit_value c) 0 ds"

text \<open>
  The bounds of an array schema are of the type \<^verbatim>\<open>number\<close>, and any number can be given:
  NaN, the two infinities, and the finite ones, here the rationals (every finite double
  is one). A number is falsy when it is 0 or NaN; a comparison with NaN is false.
\<close>

datatype number = NaN | PosInfinity | NegInfinity | Finite rat

fun truthy :: "number \<Rightarrow> bool" where
  "truthy NaN = False"
| "truthy PosInfinity = True"
| "truthy NegInfinity = True"
| "truthy (Finite q) = (q \<noteq> 0)"

text \<open>\<^verbatim>\<open>obj.length < x\<close> and \<^verbatim>\<open>obj.length > x\<close>, for an array of \<open>n\<close> items.\<close>

fun length_less :: "nat \<Rightarrow> number \<Rightarrow> bool" where
  "length_less n NaN = False"
| "length_less n PosInfinity = True"
| "length_less n NegInfinity = False"
| "length_less n (Finite q) = (of_nat n < q)"

fun length_greater :: "nat \<Rightarrow> number \<Rightarrow> bool" where
  "length_greater n NaN = False"
| "length_greater n PosInfinity = False"
| "length_greater n NegInfinity = True"
| "length_greater n (Finite q) = (of_nat n > q)"

text \<open>
  \<^verbatim>\<open>Number.prototype.toString\<close> on a bound. On a safe integer (an integer of absolute
  value below \<open>2^53\<close>) it gives the decimal digits, with a sign; on every other finite
  number (a fraction, or a large value, printed with an exponent from \<open>10^21\<close> on) the
  text is the library's, and is the parameter \<open>text\<close>.
\<close>

definition is_safe_integer :: "rat \<Rightarrow> bool" where
  "is_safe_integer q = (of_int \<lfloor>q\<rfloor> = q \<and> \<bar>q\<bar> < 2 ^ 53)"

fun Number_toString :: "(rat \<Rightarrow> string) \<Rightarrow> number \<Rightarrow> string" where
  "Number_toString text NaN = ''NaN''"
| "Number_toString text PosInfinity = ''Infinity''"
| "Number_toString text NegInfinity = ''-Infinity''"
| "Number_toString text (Finite q) =
     (if is_safe_integer q
      then (if q < 0 then CHR ''-'' # Nat_toString (nat (- \<lfloor>q\<rfloor>)) else Nat_toString (nat \<lfloor>q\<rfloor>))
      else text q)"

section \<open>Issues and validation errors\<close>

text \<open>
  \<^verbatim>\<open>new Issue(kind, path, expected, actual)\<close>. What a \<^verbatim>\<open>parse\<close> throws is either a
  \<^verbatim>\<open>ValidationError\<close> with its issues, or anything else (\<open>Thrown\<close>).
\<close>

record Issue =
  kind :: string
  path :: "string list"
  expected :: string
  actual :: string

datatype 'e thrown = ValidationError "Issue list" | Thrown 'e

text \<open>
  Modelled from the spec: \<^verbatim>\<open>ValidationError.withPrefix\<close> of \<^verbatim>\<open>error.ts\<close>, which is not
  among the sources. It returns the issues of the error, each with the segment prepended
  to its path.
\<close>

definition withPrefix :: "string \<Rightarrow> Issue list \<Rightarrow> Issue list" where
  "withPrefix segment issues = map (\<lambda>i. i\<lparr>path := segment # path i\<rparr>) issues"

section \<open>The boolean schema\<close>

definition BooleanSchema_parse :: "jsval \<Rightarrow> 'e thrown + jsval" where
  "BooleanSchema_parse obj =
     (if typeof obj \<noteq> ''boolean''
      then Inl (ValidationError
             [\<lparr>kind = ''invalidType'', path = [], expected = ''boolean'', actual = typeof obj\<rparr>])
      else Inr obj)"

section \<open>The date schema\<close>

text \<open>
  \<^verbatim>\<open>isDate\<close> of \<^verbatim>\<open>node:util/types\<close>, and \<^verbatim>\<open>new Date(v)\<close> for a number or a string.
  A number is clipped to the range of time values (ECMAScript's TimeClip); how a string
  is read is left to the implementation by the language, so \<open>Date_parse\<close> is a
  parameter. \<^verbatim>\<open>toString\<close> of a date is \<^verbatim>\<open>Invalid Date\<close> exactly when its time value is
  NaN; the text of a valid date is the parameter \<open>render\<close>.
\<close>

fun isDate :: "jsval \<Rightarrow> bool" where
  "isDate (JDate d) = True"
| "isDate v = False"

definition TimeClip :: "int \<Rightarrow> int option" where
  "TimeClip t = (if \<bar>t\<bar> \<le> 8640000000000000 then Some t else None)"

fun new_Date :: "(string \<Rightarrow> int option) \<Rightarrow> jsval \<Rightarrow> int option" where
  "new_Date Date_parse (JNumber n) = TimeClip n"
| "new_Date Date_parse (JString s) = (case Date_parse s of None \<Rightarrow> None | Some t \<Rightarrow> TimeClip t)"
| "new_Date Date_parse v = None"

definition Date_toString :: "(int \<Rightarrow> string) \<Rightarrow> int option \<Rightarrow> string" where
  "Date_toString render d = (case d of None \<Rightarrow> ''Invalid Date'' | Some t \<Rightarrow> render t)"

definition DateSchema_parse ::
  "(string \<Rightarrow> int option) \<Rightarrow> (int \<Rightarrow> string) \<Rightarrow> jsval \<Rightarrow> 'e thrown + jsval" where
  "DateSchema_parse Date_parse render obj =
     (if isDate obj then Inr obj
      else if (typeof obj = ''string'' \<or> typeof obj = ''number'')
              \<and> Date_toString render (new_Date Date_parse obj) \<noteq> ''Invalid Date''
      then Inr (JDate (new_Date Date_parse obj))
      else Inl (ValidationError
             [\<lparr>kind = ''invalidType'', path = [], expected = ''date'', actual = typeof obj\<rparr>]))"

section \<open>The array schema\<close>

text \<open>
  An item schema is its \<^verbatim>\<open>parse\<close>: a function from the input to what it returns or
  throws. \<^verbatim>\<open>minItems\<close> and \<^verbatim>\<open>maxItems\<close> are optional numbers, \<open>None\<close> when undefined.
\<close>

record ('e, 'a) ArraySchema =
  itemSchema :: "jsval \<Rightarrow> 'e thrown + 'a"
  minItems :: "number option"
  maxItems :: "number option"

definition new_ArraySchema ::
  "(jsval \<Rightarrow> 'e thrown + 'a) \<Rightarrow> number option \<Rightarrow> number option
     \<Rightarrow> ('e, 'a) ArraySchema" where
  "new_ArraySchema item lo hi = \<lparr>itemSchema = item, minItems = lo, maxItems = hi\<rparr>"

definition array :: "(jsval \<Rightarrow> 'e thrown + 'a) \<Rightarrow> ('e, 'a) ArraySchema" where
  "array item = new_ArraySchema item None None"

definition ArraySchema_min :: "number \<Rightarrow> ('e, 'a) ArraySchema \<Rightarrow> ('e, 'a) ArraySchema" where
  "ArraySchema_min items this = new_ArraySchema (itemSchema this) (Some items) (maxItems this)"

definition ArraySchema_max :: "number \<Rightarrow> ('e, 'a) ArraySchema \<Rightarrow> ('e, 'a) ArraySchema" where
  "ArraySchema_max items this = new_ArraySchema (itemSchema this) (minItems this) (Some items)"

definition ArraySchema_length :: "number \<Rightarrow> ('e, 'a) ArraySchema \<Rightarrow> ('e, 'a) ArraySchema" where
  "ArraySchema_length items this = new_ArraySchema (itemSchema this) (Some items) (Some items)"

text \<open>
  The modifiers on objects: the heap is the list of the schemas allocated so far, a
  reference is an index into it, and \<^verbatim>\<open>new\<close> allocates at the end.
\<close>

type_synonym ('e, 'a) heap = "('e, 'a) ArraySchema list"

definition alloc :: "('e, 'a) heap \<Rightarrow> ('e, 'a) ArraySchema \<Rightarrow> nat \<times> ('e, 'a) heap" where
  "alloc h obj = (length h, h @ [obj])"

definition min_ref :: "('e, 'a) heap \<Rightarrow> nat \<Rightarrow> number \<Rightarrow> nat \<times> ('e, 'a) heap" where
  "min_ref h this items = alloc h (ArraySchema_min items (h ! this))"

definition max_ref :: "('e, 'a) heap \<Rightarrow> nat \<Rightarrow> number \<Rightarrow> nat \<times> ('e, 'a) heap" where
  "max_ref h this items = alloc h (ArraySchema_max items (h ! this))"

definition length_ref :: "('e, 'a) heap \<Rightarrow> nat \<Rightarrow> number \<Rightarrow> nat \<times> ('e, 'a) heap" where
  "length_ref h this items = alloc h (ArraySchema_length items (h ! this))"

text \<open>
  The loop of \<^verbatim>\<open>parse\<close> over the items, from index \<open>i\<close>, with the elements and the
  issues pushed so far. \<open>calls\<close> records the indices on which the item schema's
  \<^verbatim>\<open>parse\<close> has been called, in order: the item schema is the caller's code, and the
  calls made to it are what the loop does besides its result.
\<close>

function parse_items ::
  "(jsval \<Rightarrow> 'e thrown + 'a) \<Rightarrow> jsval list \<Rightarrow> nat \<Rightarrow> 'a list \<Rightarrow> Issue list \<Rightarrow> nat list
     \<Rightarrow> ('e thrown + 'a list \<times> Issue list) \<times> nat list" where
  "parse_items item obj i elems issues calls =
     (if i < length obj then
        (case item (obj ! i) of
           Inr v \<Rightarrow> parse_items item obj (Suc i) (elems @ [v]) issues (calls @ [i])
         | Inl (ValidationError es) \<Rightarrow>
             parse_items item obj (Suc i) elems
               (issues @ withPrefix (Nat_toString i) es) (calls @ [i])
         | Inl (Thrown e) \<Rightarrow> (Inl (Thrown e), calls @ [i]))
      else (Inr (elems, issues), calls))"
  by pat_completeness auto
termination
  by (relation "measure (\<lambda>(item, obj, i, elems, issues, calls). length obj - i)") auto

declare parse_items.simps [simp del]

text \<open>
  The conditions of the two bound checks of \<^verbatim>\<open>parse\<close>, on an array of \<open>n\<close> items:
  \<^verbatim>\<open>this.minItems && obj.length < this.minItems\<close> and its mirror image. An undefined bound
  and the number 0 are both falsy, and so is NaN.
\<close>

definition tooShort :: "('e, 'a) ArraySchema \<Rightarrow> nat \<Rightarrow> bool" where
  "tooShort this n =
     (case minItems this of None \<Rightarrow> False | Some lo \<Rightarrow> truthy lo \<and> length_less n lo)"

definition tooLong :: "('e, 'a) ArraySchema \<Rightarrow> nat \<Rightarrow> bool" where
  "tooLong this n =
     (case maxItems this of None \<Rightarrow> False | Some hi \<Rightarrow> truthy hi \<and> length_greater n hi)"

text \<open>
  \<^verbatim>\<open>parse\<close>, with the calls it made to the item schema. \<open>text\<close> is the library's
  text of a bound that is not a safe integer.
\<close>

definition ArraySchema_run ::
  "(rat \<Rightarrow> string) \<Rightarrow> ('e, 'a) ArraySchema \<Rightarrow> jsval
     \<Rightarrow> ('e thrown + 'a list) \<times> nat list" where
  "ArraySchema_run text this obj =
     (case obj of
        JArray xs \<Rightarrow>
          if tooShort this (length xs)
          then (Inl (ValidationError
                  [\<lparr>kind = ''tooShort'', path = [],
                    expected = Number_toString text (the (minItems this)),
                    actual = Nat_toString (length xs)\<rparr>]), [])
          else if tooLong this (length xs)
          then (Inl (ValidationError
                  [\<lparr>kind = ''tooLong'', path = [],
                    expected = Number_toString text (the (maxItems this)),
                    actual = Nat_toString (length xs)\<rparr>]), [])
          else (case parse_items (itemSchema this) xs 0 [] [] [] of
                  (Inl err, calls) \<Rightarrow> (Inl err, calls)
                | (Inr (elems, issues), calls) \<Rightarrow>
                    if length issues > 0 then (Inl (ValidationError issues), calls)
                    else (Inr elems, calls))
      | _ \<Rightarrow>
          (Inl (ValidationError
             [\<lparr>kind = ''invalidType'', path = [], expected = ''array'', actual = typeof obj\<rparr>]), []))"

definition ArraySchema_parse ::
  "(rat \<Rightarrow> string) \<Rightarrow> ('e, 'a) ArraySchema \<Rightarrow> jsval \<Rightarrow> 'e thrown + 'a list" where
  "ArraySchema_parse text this obj = fst (ArraySchema_run text this obj)"

text \<open>
  What the specification says of the loop, item by item: the value an item contributes
  when its parse succeeds, the issues it contributes when its parse fails with a
  \<^verbatim>\<open>ValidationError\<close> (prefixed with the index), and both over the whole array in item
  order.
\<close>

definition item_value :: "(jsval \<Rightarrow> 'e thrown + 'a) \<Rightarrow> jsval list \<Rightarrow> nat \<Rightarrow> 'a list" where
  "item_value item obj j = (case item (obj ! j) of Inr v \<Rightarrow> [v] | Inl err \<Rightarrow> [])"

definition item_issues :: "(jsval \<Rightarrow> 'e thrown + 'a) \<Rightarrow> jsval list \<Rightarrow> nat \<Rightarrow> Issue list" where
  "item_issues item obj j =
     (case item (obj ! j) of
        Inl (ValidationError es) \<Rightarrow> withPrefix (Nat_toString j) es
      | _ \<Rightarrow> [])"

definition parsed_items :: "(jsval \<Rightarrow> 'e thrown + 'a) \<Rightarrow> jsval list \<Rightarrow> 'a list" where
  "parsed_items item obj = concat (map (item_value item obj) [0..<length obj])"

definition collected_issues :: "(jsval \<Rightarrow> 'e thrown + 'a) \<Rightarrow> jsval list \<Rightarrow> Issue list" where
  "collected_issues item obj = concat (map (item_issues item obj) [0..<length obj])"

definition throws :: "(jsval \<Rightarrow> 'e thrown + 'a) \<Rightarrow> jsval \<Rightarrow> bool" where
  "throws item v = (case item v of Inl (Thrown e) \<Rightarrow> True | _ \<Rightarrow> False)"

text \<open>
  An item schema for the examples: a boolean schema whose \<^verbatim>\<open>parse\<close> throws something
  that is not a \<^verbatim>\<open>ValidationError\<close> on \<^verbatim>\<open>null\<close>.
\<close>

definition faulty_boolean :: "jsval \<Rightarrow> string thrown + jsval" where
  "faulty_boolean obj =
     (if obj = JNull then Inl (Thrown ''TypeError'') else BooleanSchema_parse obj)"

definition plain_boolean :: "jsval \<Rightarrow> string thrown + jsval" where
  "plain_boolean = BooleanSchema_parse"

text \<open>
  In the examples every bound is a safe integer, and the text of another number is
  never asked for.
\<close>

definition no_text :: "rat \<Rightarrow> string" where
  "no_text q = []"

section \<open>Route paths\<close>

text \<open>
  Modelled from the spec: the class \<^verbatim>\<open>Path\<close> of \<^verbatim>\<open>path.ts\<close>, which is not among the
  sources; its tests are, and give the error messages and the regular expression of a
  segment, \<^verbatim>\<open>^(:?[a-z0-9-]+\??)$\<close>. A pattern must start with \<^verbatim>\<open>/\<close>; splitting by \<^verbatim>\<open>/\<close>
  yields segments; a segment is an optional leading \<^verbatim>\<open>:\<close> (a parameter), a token that is
  not empty, and an optional trailing \<^verbatim>\<open>?\<close> (the segment is optional).
\<close>

datatype Segment = Literal string bool | Param string bool

fun optional :: "Segment \<Rightarrow> bool" where
  "optional (Literal t opt) = opt"
| "optional (Param n opt) = opt"

datatype Path = Path (segments: "Segment list")

text \<open>\<^verbatim>\<open>String.prototype.split\<close> and \<^verbatim>\<open>Array.prototype.join\<close>.\<close>

fun split_on :: "char \<Rightarrow> string \<Rightarrow> string list" where
  "split_on c [] = [[]]"
| "split_on c (x # xs) =
     (if x = c then [] # split_on c xs
      else (case split_on c xs of [] \<Rightarrow> [[x]] | p # ps \<Rightarrow> (x # p) # ps))"


definition startsWith_slash :: "string \<Rightarrow> bool" where
  "startsWith_slash s = (case s of [] \<Rightarrow> False | c # cs \<Rightarrow> c = CHR ''/'')"

text \<open>The shape of a segment: the regular expression of the tests.\<close>

definition token_char :: "char \<Rightarrow> bool" where
  "token_char c = (c \<in> set ''abcdefghijklmnopqrstuvwxyz0123456789-'')"

definition is_param :: "string \<Rightarrow> bool" where
  "is_param s = (case s of [] \<Rightarrow> False | c # cs \<Rightarrow> c = CHR '':'')"

definition is_optional :: "string \<Rightarrow> bool" where
  "is_optional s = (s \<noteq> [] \<and> last s = CHR ''?'')"

definition token :: "string \<Rightarrow> string" where
  "token s =
     (let body = (if is_param s then tl s else s)
      in if is_optional body then butlast body else body)"

definition matches_segment :: "string \<Rightarrow> bool" where
  "matches_segment s = (token s \<noteq> [] \<and> list_all token_char (token s))"

definition compile_segment :: "string \<Rightarrow> Segment" where
  "compile_segment s =
     (let body = (if is_param s then tl s else s)
      in if is_param s then Param (token s) (is_optional body)
         else Literal (token s) (is_optional body))"


text \<open>The three construction errors, with the messages the tests expect.\<close>

definition must_start_message :: "string \<Rightarrow> string" where
  "must_start_message pattern =
     ''API path '' @ pattern @ '' is invalid: Must start with '' @ [CHR 0x27] @ ''/'' @ [CHR 0x27] @ ''.''"

definition segment_message :: "string \<Rightarrow> string \<Rightarrow> string" where
  "segment_message pattern s =
     ''API path '' @ pattern @ '' is invalid: Segment '' @ s
       @ '' does not match regex /^(:?[a-z0-9-]+'' @ [CHR 0x5C] @ ''??)$/.''"

definition order_message :: "string \<Rightarrow> string" where
  "order_message pattern =
     ''API path '' @ pattern
       @ '' is invalid: Optional segment cannot be followed by non-optional segment.''"

text \<open>
  Modelled from the spec: the constructor of \<^verbatim>\<open>Path\<close> (\<^verbatim>\<open>path.ts\<close>). The pattern must
  start with \<^verbatim>\<open>/\<close>, and what follows is split by \<^verbatim>\<open>/\<close>; the segments are scanned from left
  to right. A segment that has not the shape is an error naming the pattern and the
  segment: the token of the regular expression is not empty, so the empty segment of a
  doubled or trailing \<^verbatim>\<open>/\<close> is one. \<open>locked\<close> is set once an optional segment has been
  seen, and a non-optional segment parsed while locked is the ordering error.
\<close>

fun compile :: "string \<Rightarrow> string list \<Rightarrow> bool \<Rightarrow> string + Segment list" where
  "compile pattern [] locked = Inr []"
| "compile pattern (s # ss) locked =
     (if \<not> matches_segment s then Inl (segment_message pattern s)
      else if locked \<and> \<not> optional (compile_segment s) then Inl (order_message pattern)
      else (case compile pattern ss (locked \<or> optional (compile_segment s)) of
              Inl err \<Rightarrow> Inl err
            | Inr segs \<Rightarrow> Inr (compile_segment s # segs)))"

definition pattern_segments :: "string \<Rightarrow> string list" where
  "pattern_segments pattern = split_on CHR ''/'' (tl pattern)"

definition Path_new :: "string \<Rightarrow> string + Path" where
  "Path_new pattern =
     (if \<not> startsWith_slash pattern then Inl (must_start_message pattern)
      else (case compile pattern (pattern_segments pattern) False of
              Inl err \<Rightarrow> Inl err
            | Inr segs \<Rightarrow> Inr (Path segs)))"


text \<open>
  Modelled from the spec: \<^verbatim>\<open>Path.match\<close> (\<^verbatim>\<open>path.ts\<close>). It splits the candidate the same
  way, where an empty segment of the candidate is none (a capture is never empty), and
  scans the pattern's segments from left to right: a required segment with no
  candidate segment is no match; an optional segment reached when the candidate is
  exhausted stops the scan with success; a literal must equal the candidate's segment;
  a parameter captures it; candidate segments left over are no match. \<open>None\<close> is
  \<^verbatim>\<open>undefined\<close>, no match.
\<close>

definition nonempty_segments :: "string \<Rightarrow> string list" where
  "nonempty_segments s = filter (\<lambda>p. p \<noteq> []) (split_on CHR ''/'' s)"

fun match_segments ::
  "Segment list \<Rightarrow> string list \<Rightarrow> (string \<rightharpoonup> string) \<Rightarrow> (string \<rightharpoonup> string) option" where
  "match_segments [] [] params = Some params"
| "match_segments [] (c # cs) params = None"
| "match_segments (s # ss) [] params = (if optional s then Some params else None)"
| "match_segments (Literal t opt # ss) (c # cs) params =
     (if c = t then match_segments ss cs params else None)"
| "match_segments (Param n opt # ss) (c # cs) params =
     match_segments ss cs (params(n \<mapsto> c))"

definition Path_match :: "Path \<Rightarrow> string \<Rightarrow> (string \<rightharpoonup> string) option" where
  "Path_match this candidate =
     (if \<not> startsWith_slash candidate then None
      else match_segments (segments this) (nonempty_segments candidate) Map.empty)"



text \<open>
  What the specification says of the result of a match: the parameters reached, each
  with the candidate's segment at its position.
\<close>

fun captures :: "Segment list \<Rightarrow> string list \<Rightarrow> (string \<times> string) list" where
  "captures (Param n opt # ss) (c # cs) = (n, c) # captures ss cs"
| "captures (Literal t opt # ss) (c # cs) = captures ss cs"
| "captures ss cs = []"


fun param_names :: "Segment list \<Rightarrow> string list" where
  "param_names [] = []"
| "param_names (Param n opt # ss) = n # param_names ss"
| "param_names (Literal t opt # ss) = param_names ss"

section \<open>Properties of the schemas\<close>

text \<open>
  C6: the boolean schema's \<^verbatim>\<open>parse\<close> returns a value if and only if the input is a
  boolean, and then it returns the input itself; on every other input it fails with a
  \<^verbatim>\<open>ValidationError\<close> of exactly one issue: \<^verbatim>\<open>invalidType\<close>, empty path, expected
  \<^verbatim>\<open>boolean\<close>, actual the \<^verbatim>\<open>typeof\<close> tag of the input.
\<close>

theorem boolean_parse_spec:
  "((\<exists>v. (BooleanSchema_parse obj :: 'e thrown + jsval) = Inr v) = (\<exists>b. obj = JBoolean b))
   \<and> (\<forall>v. (BooleanSchema_parse obj :: 'e thrown + jsval) = Inr v \<longrightarrow> v = obj)
   \<and> ((\<forall>b. obj \<noteq> JBoolean b) \<longrightarrow>
        (BooleanSchema_parse obj :: 'e thrown + jsval) =
          Inl (ValidationError
            [\<lparr>kind = ''invalidType'', path = [], expected = ''boolean'', actual = typeof obj\<rparr>]))"
  by (cases obj) (auto simp add: BooleanSchema_parse_def)

theorem boolean_parse_spec_witness:
  "(BooleanSchema_parse (JBoolean True) :: unit thrown + jsval) = Inr (JBoolean True)
   \<and> (BooleanSchema_parse (JString ''x'') :: unit thrown + jsval) =
        Inl (ValidationError
          [\<lparr>kind = ''invalidType'', path = [], expected = ''boolean'', actual = ''string''\<rparr>])"
proof -
  have "\<forall>b. JString ''x'' \<noteq> JBoolean b" by simp
  with boolean_parse_spec [where obj = "JString ''x''" and 'e = unit]
  have "(BooleanSchema_parse (JString ''x'') :: unit thrown + jsval) =
        Inl (ValidationError
          [\<lparr>kind = ''invalidType'', path = [], expected = ''boolean'', actual = typeof (JString ''x'')\<rparr>])"
    by blast
  moreover have "\<exists>v. (BooleanSchema_parse (JBoolean True) :: unit thrown + jsval) = Inr v"
    using boolean_parse_spec [where obj = "JBoolean True" and 'e = unit] by blast
  then have "(BooleanSchema_parse (JBoolean True) :: unit thrown + jsval) = Inr (JBoolean True)"
    using boolean_parse_spec [where obj = "JBoolean True" and 'e = unit] by blast
  ultimately show ?thesis by simp
qed

text \<open>
  As long as no valid date prints as \<^verbatim>\<open>Invalid Date\<close>, a date prints so exactly when its
  time value is NaN.
\<close>

lemma Date_toString_invalid:
  "\<forall>t. render t \<noteq> ''Invalid Date'' \<Longrightarrow> (Date_toString render d = ''Invalid Date'') = (d = None)"
  by (cases d) (simp_all add: Date_toString_def)

text \<open>
  C7: the date schema's \<^verbatim>\<open>parse\<close> returns the input itself when it is a date; for a
  string or a number it returns the date constructed from it if and only if that date
  does not print as \<^verbatim>\<open>Invalid Date\<close>; for every other input, and for a string or number
  whose date is invalid, it fails with one \<^verbatim>\<open>invalidType\<close> issue, empty path, expected
  \<^verbatim>\<open>date\<close>, actual the \<^verbatim>\<open>typeof\<close> tag of the input.
\<close>

theorem date_parse_spec:
  "(isDate obj \<longrightarrow> (DateSchema_parse P R obj :: 'e thrown + jsval) = Inr obj)
   \<and> (\<not> isDate obj \<and> ((\<exists>s. obj = JString s) \<or> (\<exists>n. obj = JNumber n)) \<longrightarrow>
        ((DateSchema_parse P R obj :: 'e thrown + jsval) = Inr (JDate (new_Date P obj)))
          = (Date_toString R (new_Date P obj) \<noteq> ''Invalid Date''))
   \<and> (\<not> isDate obj \<and>
        ((\<forall>s. obj \<noteq> JString s) \<and> (\<forall>n. obj \<noteq> JNumber n)
          \<or> Date_toString R (new_Date P obj) = ''Invalid Date'') \<longrightarrow>
        (DateSchema_parse P R obj :: 'e thrown + jsval) =
          Inl (ValidationError
            [\<lparr>kind = ''invalidType'', path = [], expected = ''date'', actual = typeof obj\<rparr>]))"
  by (cases obj) (auto simp add: DateSchema_parse_def)


lemma Nat_toString_examples:
  "Nat_toString 0 = ''0''" "Nat_toString 1 = ''1''" "Nat_toString 2 = ''2''"
  "Nat_toString 3 = ''3''" "Nat_toString 4 = ''4''" "Nat_toString 5 = ''5''"
  by (simp_all add: Nat_toString.simps digit_def)

lemma upt_step: "i < n \<Longrightarrow> [i..<n] = i # [Suc i..<n]"
  by (rule upt_conv_Cons)

lemma parse_items_no_throw:
  "(\<And>j. i \<le> j \<Longrightarrow> j < length obj \<Longrightarrow> \<not> throws item (obj ! j)) \<Longrightarrow>
   parse_items item obj i elems issues calls =
     (Inr (elems @ concat (map (item_value item obj) [i..<length obj]),
           issues @ concat (map (item_issues item obj) [i..<length obj])),
      calls @ [i..<length obj])"
proof (induction item obj i elems issues calls rule: parse_items.induct)
  case (1 item obj i elems issues calls)
  show ?case
  proof (cases "i < length obj")
    case False
    then show ?thesis by (simp add: parse_items.simps [of item obj i])
  next
    case True
    have nt: "\<not> throws item (obj ! i)" using "1.prems" [of i] True by simp
    have later: "\<And>j. Suc i \<le> j \<Longrightarrow> j < length obj \<Longrightarrow> \<not> throws item (obj ! j)"
      using "1.prems" by simp
    show ?thesis
    proof (cases "item (obj ! i)")
      case (Inr v)
      from "1.IH"(2) [OF True Inr later] True Inr show ?thesis
        by (simp add: parse_items.simps [of item obj i] upt_step item_value_def item_issues_def)
    next
      case (Inl err)
      then obtain es where es: "item (obj ! i) = Inl (ValidationError es)"
        using nt by (cases err) (simp_all add: throws_def)
      from "1.IH"(1) [OF True es _ later] True es show ?thesis
        by (simp add: parse_items.simps [of item obj i] upt_step item_value_def item_issues_def)
    qed
  qed
qed

lemma parse_items_throw:
  "i \<le> k \<Longrightarrow> k < length obj \<Longrightarrow> item (obj ! k) = Inl (Thrown e) \<Longrightarrow>
   (\<And>j. i \<le> j \<Longrightarrow> j < k \<Longrightarrow> \<not> throws item (obj ! j)) \<Longrightarrow>
   parse_items item obj i elems issues calls = (Inl (Thrown e), calls @ [i..<Suc k])"
proof (induction item obj i elems issues calls rule: parse_items.induct)
  case (1 item obj i elems issues calls)
  have lt: "i < length obj" using "1.prems" by simp
  show ?case
  proof (cases "i = k")
    case True
    with "1.prems" show ?thesis
      by (simp add: parse_items.simps [of item obj k])
  next
    case False
    then have ik: "Suc i \<le> k" using "1.prems" by simp
    have nt: "\<not> throws item (obj ! i)" using "1.prems"(4) [of i] False "1.prems"(1) by simp
    have later: "\<And>j. Suc i \<le> j \<Longrightarrow> j < k \<Longrightarrow> \<not> throws item (obj ! j)"
      using "1.prems" by simp
    have step: "[i..<Suc k] = i # [Suc i..<Suc k]" using ik by (simp add: upt_step del: upt_Suc)
    show ?thesis
    proof (cases "item (obj ! i)")
      case (Inr v)
      from "1.IH"(2) [OF lt Inr ik "1.prems"(2,3) later] lt Inr show ?thesis
        by (simp add: parse_items.simps [of item obj i] step del: upt_Suc)
    next
      case (Inl err)
      then obtain es where es: "item (obj ! i) = Inl (ValidationError es)"
        using nt by (cases err) (simp_all add: throws_def)
      from "1.IH"(1) [OF lt es _ ik "1.prems"(2,3) later] lt es show ?thesis
        by (simp add: parse_items.simps [of item obj i] step del: upt_Suc)
    qed
  qed
qed

theorem date_parse_spec_witness:
  "(DateSchema_parse (\<lambda>s. if s = ''1970-01-01T00:00:00.000Z'' then Some 0 else None) (\<lambda>t. ''a date'') (JDate (Some 5)) :: unit thrown + jsval) = Inr (JDate (Some 5))
   \<and> (DateSchema_parse (\<lambda>s. if s = ''1970-01-01T00:00:00.000Z'' then Some 0 else None) (\<lambda>t. ''a date'') (JNumber 86400000) :: unit thrown + jsval) = Inr (JDate (Some 86400000))
   \<and> (DateSchema_parse (\<lambda>s. if s = ''1970-01-01T00:00:00.000Z'' then Some 0 else None) (\<lambda>t. ''a date'') (JString ''1970-01-01T00:00:00.000Z'') :: unit thrown + jsval) = Inr (JDate (Some 0))
   \<and> (DateSchema_parse (\<lambda>s. if s = ''1970-01-01T00:00:00.000Z'' then Some 0 else None) (\<lambda>t. ''a date'') (JString ''soon'') :: unit thrown + jsval)
        = Inl (ValidationError [\<lparr>kind = ''invalidType'', path = [], expected = ''date'', actual = ''string''\<rparr>])
   \<and> (DateSchema_parse (\<lambda>s. if s = ''1970-01-01T00:00:00.000Z'' then Some 0 else None) (\<lambda>t. ''a date'') JNull :: unit thrown + jsval)
        = Inl (ValidationError [\<lparr>kind = ''invalidType'', path = [], expected = ''date'', actual = ''object''\<rparr>])
   \<and> (DateSchema_parse (\<lambda>s. if s = ''1970-01-01T00:00:00.000Z'' then Some 0 else None) (\<lambda>t. ''a date'') (JObject []) :: unit thrown + jsval)
        = Inl (ValidationError [\<lparr>kind = ''invalidType'', path = [], expected = ''date'', actual = ''object''\<rparr>])"
  (is "?a \<and> ?b \<and> ?c \<and> ?d \<and> ?e \<and> ?f")
proof -
  let ?P = "\<lambda>s. if s = ''1970-01-01T00:00:00.000Z'' then Some (0::int) else None"
  let ?R = "\<lambda>t::int. ''a date''"
  have a: ?a using date_parse_spec [where obj = "JDate (Some 5)" and P = ?P and R = ?R and 'e = unit] by simp
  have b: ?b using date_parse_spec [where obj = "JNumber 86400000" and P = ?P and R = ?R and 'e = unit]
    by (simp add: TimeClip_def Date_toString_def)
  have c: ?c using date_parse_spec [where obj = "JString ''1970-01-01T00:00:00.000Z''" and P = ?P and R = ?R and 'e = unit]
    by (simp add: TimeClip_def Date_toString_def)
  have d: ?d using date_parse_spec [where obj = "JString ''soon''" and P = ?P and R = ?R and 'e = unit]
    by (simp add: TimeClip_def Date_toString_def)
  have e: ?e using date_parse_spec [where obj = "JNull" and P = ?P and R = ?R and 'e = unit] by simp
  have f: ?f using date_parse_spec [where obj = "JObject []" and P = ?P and R = ?R and 'e = unit] by simp
  from a b c d e f show ?thesis by blast
qed

text \<open>
  C10: \<^verbatim>\<open>array(s).length(n)\<close> is the schema with \<^verbatim>\<open>minItems = n\<close>, \<^verbatim>\<open>maxItems = n\<close> and the
  item schema \<open>s\<close>; it is the same schema as \<^verbatim>\<open>array(s).min(n).max(n)\<close> and parses every
  input as that one does. On objects, each of the three modifiers returns a reference
  that was not allocated before, to a schema with the new fields, and every schema
  allocated before, the receiver among them, is as it was.
\<close>

theorem length_is_min_max:
  "ArraySchema_length n (array s) = \<lparr>itemSchema = s, minItems = Some n, maxItems = Some n\<rparr>
   \<and> ArraySchema_length n (array s) = ArraySchema_max n (ArraySchema_min n (array s))
   \<and> ArraySchema_parse T (ArraySchema_length n (array s)) obj
       = ArraySchema_parse T (ArraySchema_max n (ArraySchema_min n (array s))) obj
   \<and> itemSchema (ArraySchema_length n this) = itemSchema this
   \<and> minItems (ArraySchema_length n this) = Some n \<and> maxItems (ArraySchema_length n this) = Some n
   \<and> ArraySchema_length n this = ArraySchema_max n (ArraySchema_min n this)
   \<and> fst (min_ref h r n) = length h \<and> take (length h) (snd (min_ref h r n)) = h
   \<and> snd (min_ref h r n) ! fst (min_ref h r n) = ArraySchema_min n (h ! r)
   \<and> fst (max_ref h r n) = length h \<and> take (length h) (snd (max_ref h r n)) = h
   \<and> snd (max_ref h r n) ! fst (max_ref h r n) = ArraySchema_max n (h ! r)
   \<and> fst (length_ref h r n) = length h \<and> take (length h) (snd (length_ref h r n)) = h
   \<and> snd (length_ref h r n) ! fst (length_ref h r n) = ArraySchema_length n (h ! r)"
  by (simp add: ArraySchema_length_def ArraySchema_max_def ArraySchema_min_def array_def
      new_ArraySchema_def min_ref_def max_ref_def length_ref_def alloc_def)

lemma run_tooShort:
  "tooShort S (length xs) \<Longrightarrow>
   ArraySchema_run T S (JArray xs) =
     (Inl (ValidationError
        [\<lparr>kind = ''tooShort'', path = [], expected = Number_toString T (the (minItems S)),
          actual = Nat_toString (length xs)\<rparr>]), [])"
  by (simp add: ArraySchema_run_def)

lemma run_tooLong:
  "\<not> tooShort S (length xs) \<Longrightarrow> tooLong S (length xs) \<Longrightarrow>
   ArraySchema_run T S (JArray xs) =
     (Inl (ValidationError
        [\<lparr>kind = ''tooLong'', path = [], expected = Number_toString T (the (maxItems S)),
          actual = Nat_toString (length xs)\<rparr>]), [])"
  by (simp add: ArraySchema_run_def)

lemma run_items:
  "\<not> tooShort S (length xs) \<Longrightarrow> \<not> tooLong S (length xs) \<Longrightarrow>
   ArraySchema_run T S (JArray xs) =
     (case parse_items (itemSchema S) xs 0 [] [] [] of
        (Inl err, calls) \<Rightarrow> (Inl err, calls)
      | (Inr (elems, issues), calls) \<Rightarrow>
          if length issues > 0 then (Inl (ValidationError issues), calls)
          else (Inr elems, calls))"
  by (simp add: ArraySchema_run_def)

lemma run_no_throw:
  assumes "\<not> tooShort S (length xs)" and "\<not> tooLong S (length xs)"
    and "\<And>j. j < length xs \<Longrightarrow> \<not> throws (itemSchema S) (xs ! j)"
  shows "ArraySchema_run T S (JArray xs) =
     (if collected_issues (itemSchema S) xs \<noteq> []
      then Inl (ValidationError (collected_issues (itemSchema S) xs))
      else Inr (parsed_items (itemSchema S) xs), [0..<length xs])"
proof -
  have "parse_items (itemSchema S) xs 0 [] [] [] =
     (Inr ([] @ concat (map (item_value (itemSchema S) xs) [0..<length xs]),
           [] @ concat (map (item_issues (itemSchema S) xs) [0..<length xs])),
      [] @ [0..<length xs])"
    by (rule parse_items_no_throw) (simp add: assms(3))
  then show ?thesis
    using assms(1,2) by (simp add: run_items parsed_items_def collected_issues_def)
qed

lemma run_throw:
  assumes "\<not> tooShort S (length xs)" and "\<not> tooLong S (length xs)"
    and "k < length xs" and "itemSchema S (xs ! k) = Inl (Thrown e)"
    and "\<And>j. j < k \<Longrightarrow> \<not> throws (itemSchema S) (xs ! j)"
  shows "ArraySchema_run T S (JArray xs) = (Inl (Thrown e), [0..<Suc k])"
proof -
  have "parse_items (itemSchema S) xs 0 [] [] [] = (Inl (Thrown e), [] @ [0..<Suc k])"
    by (rule parse_items_throw) (simp_all add: assms)
  then show ?thesis
    using assms(1,2) by (simp add: run_items)
qed


lemma run_cases:
  assumes "\<not> tooShort S (length xs)" and "\<not> tooLong S (length xs)"
  shows "(\<exists>k e. k < length xs \<and> itemSchema S (xs ! k) = Inl (Thrown e)
            \<and> (\<forall>j<k. \<not> throws (itemSchema S) (xs ! j))
            \<and> ArraySchema_run T S (JArray xs) = (Inl (Thrown e), [0..<Suc k]))
       \<or> ((\<forall>j<length xs. \<not> throws (itemSchema S) (xs ! j))
            \<and> ArraySchema_run T S (JArray xs) =
               (if collected_issues (itemSchema S) xs \<noteq> []
                then Inl (ValidationError (collected_issues (itemSchema S) xs))
                else Inr (parsed_items (itemSchema S) xs), [0..<length xs]))"
proof (cases "\<exists>j<length xs. throws (itemSchema S) (xs ! j)")
  case False
  then have none: "\<And>j. j < length xs \<Longrightarrow> \<not> throws (itemSchema S) (xs ! j)" by blast
  from run_no_throw [OF assms none] none show ?thesis by blast
next
  case True
  define k where "k = (LEAST j. j < length xs \<and> throws (itemSchema S) (xs ! j))"
  from True have kp: "k < length xs \<and> throws (itemSchema S) (xs ! k)"
    unfolding k_def by (metis (mono_tags, lifting) LeastI)
  have least: "\<And>j. j < k \<Longrightarrow> \<not> throws (itemSchema S) (xs ! j)"
  proof
    fix j assume "j < k" and "throws (itemSchema S) (xs ! j)"
    with kp have "j < length xs \<and> throws (itemSchema S) (xs ! j)" by simp
    then have "k \<le> j" unfolding k_def by (rule Least_le)
    with \<open>j < k\<close> show False by simp
  qed
  from kp obtain e where e: "itemSchema S (xs ! k) = Inl (Thrown e)"
    by (auto simp add: throws_def split: sum.splits thrown.splits)
  from run_throw [OF assms _ e least] kp e least show ?thesis by blast
qed

lemma throws_iff: "throws item v = (\<exists>e. item v = Inl (Thrown e))"
  by (auto simp add: throws_def split: sum.splits thrown.splits)

text \<open>
  C8: when the item schema's \<^verbatim>\<open>parse\<close> is called on item \<open>i\<close> of the array and throws
  something that is not a \<^verbatim>\<open>ValidationError\<close>, the array schema's \<^verbatim>\<open>parse\<close> throws that
  same value, whatever issues the earlier items gave, and item \<open>i\<close> is the last item
  the item schema was called on.
\<close>

theorem thrown_propagates:
  assumes "i \<in> set (snd (ArraySchema_run T S (JArray xs)))"
    and "itemSchema S (xs ! i) = Inl (Thrown e)"
  shows "ArraySchema_run T S (JArray xs) = (Inl (Thrown e), [0..<Suc i])"
proof -
  have ns: "\<not> tooShort S (length xs)"
    using assms(1) by (auto simp add: run_tooShort)
  have nl: "\<not> tooLong S (length xs)"
    using assms(1) ns by (auto simp add: run_tooLong)
  have th: "throws (itemSchema S) (xs ! i)" using assms(2) by (simp add: throws_iff)
  from run_cases [OF ns nl, where T = T] show ?thesis
  proof (elim disjE exE conjE)
    fix k e'
    assume k: "k < length xs" "itemSchema S (xs ! k) = Inl (Thrown e')"
      "\<forall>j<k. \<not> throws (itemSchema S) (xs ! j)"
      "ArraySchema_run T S (JArray xs) = (Inl (Thrown e'), [0..<Suc k])"
    from assms(1) k(4) have "i \<le> k" by auto
    moreover have "\<not> i < k" using k(3) th by blast
    ultimately have "i = k" by simp
    with k(2,4) assms(2) show ?thesis by simp
  next
    assume none: "\<forall>j<length xs. \<not> throws (itemSchema S) (xs ! j)"
      and run: "ArraySchema_run T S (JArray xs) =
        (if collected_issues (itemSchema S) xs \<noteq> []
         then Inl (ValidationError (collected_issues (itemSchema S) xs))
         else Inr (parsed_items (itemSchema S) xs), [0..<length xs])"
    from assms(1) run have "i < length xs" by simp
    with none th show ?thesis by blast
  qed
qed

lemma faulty_run:
  "ArraySchema_run no_text (array faulty_boolean) (JArray [JNumber 1, JNull, JBoolean True])
     = (Inl (Thrown ''TypeError''), [0, 1])"
  by (simp add: ArraySchema_run_def array_def new_ArraySchema_def tooShort_def tooLong_def
      parse_items.simps faulty_boolean_def BooleanSchema_parse_def)

theorem thrown_propagates_witness:
  "ArraySchema_run no_text (array faulty_boolean) (JArray [JNumber 1, JNull, JBoolean True])
     = (Inl (Thrown ''TypeError''), [0, 1])"
proof -
  have called: "1 \<in> set (snd (ArraySchema_run no_text (array faulty_boolean)
      (JArray [JNumber 1, JNull, JBoolean True])))"
    by (simp add: faulty_run)
  have raised: "itemSchema (array faulty_boolean) ([JNumber 1, JNull, JBoolean True] ! 1)
      = Inl (Thrown ''TypeError'')"
    by (simp add: array_def new_ArraySchema_def faulty_boolean_def)
  have "[0..<Suc 1] = [0, 1]" by (simp add: upt_rec)
  with thrown_propagates [OF called raised] show ?thesis by simp
qed

lemma map_index: "map (\<lambda>j. f (xs ! j)) [0..<length xs] = map f xs"
proof -
  have "map (\<lambda>j. f (xs ! j)) [0..<length xs] = map f (map (\<lambda>j. xs ! j) [0..<length xs])"
    by simp
  then show ?thesis by (simp only: map_nth)
qed

lemma parsed_items_in_order:
  "parsed_items item xs = concat (map (\<lambda>x. case item x of Inr v \<Rightarrow> [v] | Inl err \<Rightarrow> []) xs)"
proof -
  have "item_value item xs = (\<lambda>j. case item (xs ! j) of Inr v \<Rightarrow> [v] | Inl err \<Rightarrow> [])"
    by (rule ext) (simp add: item_value_def)
  with map_index [of "\<lambda>x. case item x of Inr v \<Rightarrow> [v] | Inl err \<Rightarrow> []" xs]
  show ?thesis by (simp add: parsed_items_def)
qed

lemma parsed_items_all: "map Inr vs = map item xs \<Longrightarrow> parsed_items item xs = vs"
proof (induction xs arbitrary: vs)
  case Nil
  then show ?case by (simp add: parsed_items_in_order)
next
  case (Cons x xs)
  then obtain v vs' where "vs = v # vs'" "item x = Inr v" "map Inr vs' = map item xs"
    by (cases vs) auto
  with Cons.IH [of vs'] show ?case by (simp add: parsed_items_in_order)
qed

lemma collected_issues_none:
  "(\<And>j. j < length xs \<Longrightarrow> \<forall>es. item (xs ! j) \<noteq> Inl (ValidationError es) \<or> es = []) \<Longrightarrow> collected_issues item xs = []"
  by (auto simp add: collected_issues_def item_issues_def withPrefix_def
      split: sum.splits thrown.splits)

lemma collected_issues_paths: "x \<in> set (collected_issues item xs) \<Longrightarrow> path x \<noteq> []"
  by (auto simp add: collected_issues_def item_issues_def withPrefix_def
      split: sum.splits thrown.splits)

text \<open>
  C1 (as amended): for every array schema and every array that passes the bound checks,
  if the item schema's \<^verbatim>\<open>parse\<close> throws nothing but \<^verbatim>\<open>ValidationError\<close>s on the items,
  then it is called on every item in order; the issues of every failed item are
  collected in item order, each with the decimal index of its item prepended to its
  path; if any issue was collected \<^verbatim>\<open>parse\<close> fails with a \<^verbatim>\<open>ValidationError\<close> of exactly
  these issues, and otherwise it returns the values of the parsed items in the order of
  the input.
\<close>

theorem array_parse_aggregates:
  assumes "\<not> tooShort S (length xs)" and "\<not> tooLong S (length xs)"
    and "\<forall>x\<in>set xs. \<not> throws (itemSchema S) x"
  shows "ArraySchema_run T S (JArray xs) =
           (if collected_issues (itemSchema S) xs \<noteq> []
            then Inl (ValidationError (collected_issues (itemSchema S) xs))
            else Inr (parsed_items (itemSchema S) xs), [0..<length xs])
         \<and> parsed_items (itemSchema S) xs
             = concat (map (\<lambda>x. case itemSchema S x of Inr v \<Rightarrow> [v] | Inl err \<Rightarrow> []) xs)"
proof -
  have "\<And>j. j < length xs \<Longrightarrow> \<not> throws (itemSchema S) (xs ! j)"
    using assms(3) by simp
  from run_no_throw [OF assms(1,2) this] show ?thesis
    by (simp add: parsed_items_in_order)
qed

lemma Nat_toString_one: "Nat_toString (Suc 0) = ''1''"
  by (simp add: Nat_toString.simps digit_def)

theorem array_parse_aggregates_witness:
  "ArraySchema_run no_text (ArraySchema_max (Finite 4) (ArraySchema_min (Finite 2) (array plain_boolean)))
      (JArray [JBoolean True, JNumber 1, JBoolean False])
     = (Inl (ValidationError
          [\<lparr>kind = ''invalidType'', path = [''1''], expected = ''boolean'', actual = ''number''\<rparr>]),
        [0, 1, 2])
   \<and> ArraySchema_run no_text (ArraySchema_max (Finite 4) (ArraySchema_min (Finite 2) (array plain_boolean)))
      (JArray [JBoolean True, JBoolean False])
     = (Inr [JBoolean True, JBoolean False], [0, 1])"
proof -
  let ?S = "ArraySchema_max (Finite 4) (ArraySchema_min (Finite 2) (array plain_boolean))"
  let ?xs = "[JBoolean True, JNumber 1, JBoolean False]"
  let ?ys = "[JBoolean True, JBoolean False]"
  have item: "itemSchema ?S = plain_boolean"
    by (simp add: ArraySchema_max_def ArraySchema_min_def array_def new_ArraySchema_def)
  have b: "\<not> tooShort ?S (length ?xs)" "\<not> tooLong ?S (length ?xs)"
      "\<not> tooShort ?S (length ?ys)" "\<not> tooLong ?S (length ?ys)"
    by (simp_all add: tooShort_def tooLong_def ArraySchema_max_def ArraySchema_min_def
        array_def new_ArraySchema_def)
  have t: "\<forall>x\<in>set ?xs. \<not> throws (itemSchema ?S) x" "\<forall>x\<in>set ?ys. \<not> throws (itemSchema ?S) x"
    unfolding item by (simp_all add: throws_def plain_boolean_def BooleanSchema_parse_def)
  have up: "[0..<length ?xs] = [0, 1, 2]" "[0..<length ?ys] = [0, 1]"
    by (simp_all add: upt_rec)
  have c: "collected_issues plain_boolean ?xs =
      [\<lparr>kind = ''invalidType'', path = [''1''], expected = ''boolean'', actual = ''number''\<rparr>]"
    by (simp add: collected_issues_def up item_issues_def plain_boolean_def BooleanSchema_parse_def
        withPrefix_def Nat_toString_examples Nat_toString_one)
  have d: "collected_issues plain_boolean ?ys = []"
    by (simp add: collected_issues_def up item_issues_def plain_boolean_def BooleanSchema_parse_def)
  have p: "parsed_items plain_boolean ?ys = ?ys"
    by (simp add: parsed_items_in_order plain_boolean_def BooleanSchema_parse_def)
  from array_parse_aggregates [OF b(1,2) t(1), of no_text]
    array_parse_aggregates [OF b(3,4) t(2), of no_text]
  show ?thesis
    by (simp only: item c d p up) simp
qed

text \<open>
  Without the condition on what the item schema throws the statement fails: here the
  bound checks pass and item 0 gives an issue, yet \<^verbatim>\<open>parse\<close> does not fail with a
  \<^verbatim>\<open>ValidationError\<close>, because item 1 throws something else.
\<close>

theorem array_parse_aggregates_counterexample:
  "\<not> tooShort (array faulty_boolean) (length [JNumber 1, JNull])
   \<and> \<not> tooLong (array faulty_boolean) (length [JNumber 1, JNull])
   \<and> itemSchema (array faulty_boolean) ([JNumber 1, JNull] ! 0) =
       Inl (ValidationError
         [\<lparr>kind = ''invalidType'', path = [], expected = ''boolean'', actual = ''number''\<rparr>])
   \<and> ArraySchema_parse no_text (array faulty_boolean) (JArray [JNumber 1, JNull])
       = Inl (Thrown ''TypeError'')"
  by (simp add: ArraySchema_parse_def ArraySchema_run_def array_def new_ArraySchema_def
      tooShort_def tooLong_def parse_items.simps faulty_boolean_def BooleanSchema_parse_def)

lemma digit_value_digit: "d < 10 \<Longrightarrow> digit_value (digit d) = d"
proof -
  assume "d < 10"
  then consider "d = 0" | "d = 1" | "d = 2" | "d = 3" | "d = 4" | "d = 5" | "d = 6" | "d = 7"
    | "d = 8" | "d = 9" by atomize_elim arith
  then show ?thesis
    by cases (simp_all add: digit_def digit_value_def)
qed

lemma digits_value_Nat_toString: "digits_value (Nat_toString n) = n"
proof (induction n rule: Nat_toString.induct)
  case (1 n)
  show ?case
  proof (cases "n < 10")
    case True
    then show ?thesis
      by (simp add: Nat_toString.simps [of n] digits_value_def digit_value_digit)
  next
    case False
    with "1.IH" have "digits_value (Nat_toString (n div 10)) = n div 10" by simp
    with False show ?thesis
      by (simp add: Nat_toString.simps [of n] digits_value_def digit_value_digit)
  qed
qed

lemma Number_toString_nat:
  "k < 2 ^ 53 \<Longrightarrow> Number_toString T (Finite (of_nat k)) = Nat_toString k"
proof -
  assume "k < 2 ^ 53"
  then have "(of_nat k :: rat) < of_nat (2 ^ 53)" by (simp only: of_nat_less_iff)
  then have "(of_nat k :: rat) < 2 ^ 53" by simp
  then show ?thesis by (simp add: is_safe_integer_def)
qed

lemma length_less_truthy: "length_less n x \<Longrightarrow> truthy x"
  by (cases x) auto

lemma length_greater_truthy: "x \<noteq> Finite 0 \<Longrightarrow> length_greater n x \<Longrightarrow> truthy x"
  by (cases x) auto

text \<open>
  C2 (as amended): when \<^verbatim>\<open>minItems\<close> is set and the array is shorter, \<^verbatim>\<open>parse\<close> fails with
  the single issue \<^verbatim>\<open>tooShort\<close>, empty path, expected \<^verbatim>\<open>minItems.toString()\<close>, actual the
  decimal string of the length, and the item schema is not called. When \<^verbatim>\<open>maxItems\<close> is
  set to a number other than 0, the array is longer and the check of \<^verbatim>\<open>minItems\<close> has
  not failed, \<^verbatim>\<open>parse\<close> fails with the single issue \<^verbatim>\<open>tooLong\<close> in the same way, and the
  item schema is not called. \<^verbatim>\<open>toString\<close> of a bound that is a whole number from 0 below
  \<open>2^53\<close> is its decimal string.
\<close>

theorem bounds_short_circuit:
  "(minItems S = Some lo \<and> length_less (length xs) lo \<longrightarrow>
      ArraySchema_run T S (JArray xs) =
        (Inl (ValidationError
           [\<lparr>kind = ''tooShort'', path = [], expected = Number_toString T lo,
             actual = Nat_toString (length xs)\<rparr>]), []))
   \<and> (maxItems S = Some hi \<and> hi \<noteq> Finite 0 \<and> length_greater (length xs) hi
        \<and> \<not> tooShort S (length xs) \<longrightarrow>
      ArraySchema_run T S (JArray xs) =
        (Inl (ValidationError
           [\<lparr>kind = ''tooLong'', path = [], expected = Number_toString T hi,
             actual = Nat_toString (length xs)\<rparr>]), []))
   \<and> (k < 2 ^ 53 \<longrightarrow> Number_toString T (Finite (of_nat k)) = Nat_toString k)
   \<and> digits_value (Nat_toString k) = k"
proof (intro conjI impI)
  assume a: "minItems S = Some lo \<and> length_less (length xs) lo"
  then have "truthy lo" using length_less_truthy by blast
  with a have "tooShort S (length xs)" "the (minItems S) = lo"
    by (simp_all add: tooShort_def)
  then show "ArraySchema_run T S (JArray xs) =
        (Inl (ValidationError
           [\<lparr>kind = ''tooShort'', path = [], expected = Number_toString T lo,
             actual = Nat_toString (length xs)\<rparr>]), [])"
    by (simp add: run_tooShort)
next
  assume a: "maxItems S = Some hi \<and> hi \<noteq> Finite 0 \<and> length_greater (length xs) hi
        \<and> \<not> tooShort S (length xs)"
  then have "truthy hi" using length_greater_truthy by blast
  with a have "tooLong S (length xs)" "the (maxItems S) = hi"
    by (simp_all add: tooLong_def)
  with a show "ArraySchema_run T S (JArray xs) =
        (Inl (ValidationError
           [\<lparr>kind = ''tooLong'', path = [], expected = Number_toString T hi,
             actual = Nat_toString (length xs)\<rparr>]), [])"
    by (simp add: run_tooLong)
next
  assume "k < 2 ^ 53"
  then show "Number_toString T (Finite (of_nat k)) = Nat_toString k"
    by (rule Number_toString_nat)
next
  show "digits_value (Nat_toString k) = k"
    by (rule digits_value_Nat_toString)
qed

theorem bounds_short_circuit_witness:
  "ArraySchema_run no_text (ArraySchema_max (Finite 4) (ArraySchema_min (Finite 2) (array plain_boolean)))
      (JArray [])
     = (Inl (ValidationError
          [\<lparr>kind = ''tooShort'', path = [], expected = ''2'', actual = ''0''\<rparr>]), [])
   \<and> ArraySchema_run no_text (ArraySchema_max (Finite 4) (ArraySchema_min (Finite 2) (array plain_boolean)))
        (JArray [JBoolean True, JBoolean False, JBoolean True, JBoolean False, JBoolean True])
     = (Inl (ValidationError
          [\<lparr>kind = ''tooLong'', path = [], expected = ''4'', actual = ''5''\<rparr>]), [])"
proof -
  let ?S = "ArraySchema_max (Finite 4) (ArraySchema_min (Finite 2) (array plain_boolean))"
  let ?xs = "[JBoolean True, JBoolean False, JBoolean True, JBoolean False, JBoolean True]"
  have lo: "minItems ?S = Some (Finite 2) \<and> length_less (length ([] :: jsval list)) (Finite 2)"
    by (simp add: ArraySchema_max_def ArraySchema_min_def array_def new_ArraySchema_def)
  have hi: "maxItems ?S = Some (Finite 4) \<and> Finite 4 \<noteq> Finite 0
      \<and> length_greater (length ?xs) (Finite 4) \<and> \<not> tooShort ?S (length ?xs)"
    by (simp add: ArraySchema_max_def ArraySchema_min_def array_def new_ArraySchema_def tooShort_def)
  have two: "Number_toString no_text (Finite 2) = ''2''"
    by (simp add: is_safe_integer_def Nat_toString_examples)
  have four: "Number_toString no_text (Finite 4) = ''4''"
    by (simp add: is_safe_integer_def Nat_toString_examples)
  from bounds_short_circuit [where S = ?S and lo = "Finite 2" and xs = "[]" and T = no_text] lo
  have a: "ArraySchema_run no_text ?S (JArray []) =
        (Inl (ValidationError
           [\<lparr>kind = ''tooShort'', path = [], expected = Number_toString no_text (Finite 2),
             actual = Nat_toString (length ([] :: jsval list))\<rparr>]), [])"
    by blast
  from bounds_short_circuit [where S = ?S and hi = "Finite 4" and xs = ?xs and T = no_text] hi
  have b: "ArraySchema_run no_text ?S (JArray ?xs) =
        (Inl (ValidationError
           [\<lparr>kind = ''tooLong'', path = [], expected = Number_toString no_text (Finite 4),
             actual = Nat_toString (length ?xs)\<rparr>]), [])"
    by blast
  have len: "Nat_toString (length ([] :: jsval list)) = ''0''" "Nat_toString (length ?xs) = ''5''"
    by (simp_all add: Nat_toString.simps digit_def)
  from a b show ?thesis
    by (simp only: two four len)
qed

text \<open>
  The check of \<^verbatim>\<open>minItems\<close> comes first: on \<^verbatim>\<open>array(s).min(5).max(2)\<close> an array of three
  items is longer than \<^verbatim>\<open>maxItems\<close>, and \<^verbatim>\<open>parse\<close> fails with \<^verbatim>\<open>tooShort\<close>.
\<close>

theorem bounds_short_circuit_counterexample:
  "maxItems (ArraySchema_max (Finite 2) (ArraySchema_min (Finite 5) (array plain_boolean)))
     = Some (Finite 2)
   \<and> length_greater (length [JBoolean True, JBoolean True, JBoolean True]) (Finite 2)
   \<and> ArraySchema_parse no_text
        (ArraySchema_max (Finite 2) (ArraySchema_min (Finite 5) (array plain_boolean)))
        (JArray [JBoolean True, JBoolean True, JBoolean True])
       = Inl (ValidationError
           [\<lparr>kind = ''tooShort'', path = [], expected = ''5'', actual = ''3''\<rparr>])"
  by (simp add: ArraySchema_parse_def ArraySchema_run_def array_def new_ArraySchema_def
      ArraySchema_max_def ArraySchema_min_def tooShort_def is_safe_integer_def
      Nat_toString.simps digit_def)

text \<open>
  \<^verbatim>\<open>maxItems = 0\<close> is set, yet falsy: \<^verbatim>\<open>array(s).max(0)\<close> parses an array of one item.
\<close>

lemma max_zero_not_enforced:
  "maxItems (ArraySchema_max (Finite 0) (array plain_boolean)) = Some (Finite 0)
   \<and> length_greater (length [JBoolean True]) (Finite 0)
   \<and> ArraySchema_run no_text (ArraySchema_max (Finite 0) (array plain_boolean))
        (JArray [JBoolean True])
       = (Inr [JBoolean True], [0])"
  by (simp add: ArraySchema_run_def array_def new_ArraySchema_def
      ArraySchema_max_def tooShort_def tooLong_def parse_items.simps plain_boolean_def
      BooleanSchema_parse_def)

lemma run_issue_paths:
  assumes "fst (ArraySchema_run T S (JArray xs)) = Inl (ValidationError issues)"
    and "x \<in> set issues" and "path x = []"
  shows "tooShort S (length xs) \<and> kind x = ''tooShort''
       \<or> \<not> tooShort S (length xs) \<and> tooLong S (length xs) \<and> kind x = ''tooLong''"
proof (cases "tooShort S (length xs)")
  case True
  with assms show ?thesis by (auto simp add: run_tooShort)
next
  case ns: False
  show ?thesis
  proof (cases "tooLong S (length xs)")
    case True
    with ns assms show ?thesis by (auto simp add: run_tooLong)
  next
    case False
    from run_cases [OF ns False, where T = T] assms(1)
    have "issues = collected_issues (itemSchema S) xs"
      by (auto split: if_splits)
    with assms(2,3) collected_issues_paths show ?thesis by blast
  qed
qed

text \<open>
  C9: a bound equal to 0 is falsy, so its check is skipped: the schema parses every
  input as the schema without that bound does. With \<^verbatim>\<open>maxItems = 0\<close> no array of any
  length is too long, and no failure of \<^verbatim>\<open>parse\<close> carries a \<^verbatim>\<open>tooLong\<close> issue of the
  array itself (one with an empty path); \<^verbatim>\<open>array(s).max(0)\<close> and \<^verbatim>\<open>array(s).length(0)\<close>
  parse as \<^verbatim>\<open>array(s)\<close> does, and return the parsed items of an array of any length
  whose items all parse.
\<close>

theorem zero_bound_skipped:
  "(minItems S = Some (Finite 0) \<longrightarrow>
      \<not> tooShort S n \<and> ArraySchema_run T S obj = ArraySchema_run T (S\<lparr>minItems := None\<rparr>) obj)
   \<and> (maxItems S = Some (Finite 0) \<longrightarrow>
      \<not> tooLong S n \<and> ArraySchema_run T S obj = ArraySchema_run T (S\<lparr>maxItems := None\<rparr>) obj
      \<and> (\<forall>xs issues. ArraySchema_parse T S (JArray xs) = Inl (ValidationError issues) \<longrightarrow>
            (\<forall>x\<in>set issues. \<not> (kind x = ''tooLong'' \<and> path x = []))))
   \<and> ArraySchema_run T (ArraySchema_max (Finite 0) (array s)) obj = ArraySchema_run T (array s) obj
   \<and> ArraySchema_run T (ArraySchema_length (Finite 0) (array s)) obj = ArraySchema_run T (array s) obj
   \<and> (map Inr vs = map s xs \<longrightarrow>
        ArraySchema_parse T (ArraySchema_max (Finite 0) (array s)) (JArray xs) = Inr vs
        \<and> ArraySchema_parse T (ArraySchema_length (Finite 0) (array s)) (JArray xs) = Inr vs)"
proof (intro conjI impI allI ballI)
  assume "minItems S = Some (Finite 0)"
  then show "\<not> tooShort S n" by (simp add: tooShort_def)
next
  assume "minItems S = Some (Finite 0)"
  then show "ArraySchema_run T S obj = ArraySchema_run T (S\<lparr>minItems := None\<rparr>) obj"
    by (cases obj) (simp_all add: ArraySchema_run_def tooShort_def tooLong_def)
next
  assume "maxItems S = Some (Finite 0)"
  then show "\<not> tooLong S n" by (simp add: tooLong_def)
next
  assume "maxItems S = Some (Finite 0)"
  then show "ArraySchema_run T S obj = ArraySchema_run T (S\<lparr>maxItems := None\<rparr>) obj"
    by (cases obj) (simp_all add: ArraySchema_run_def tooShort_def tooLong_def)
next
  fix xs issues x
  assume z: "maxItems S = Some (Finite 0)"
    and r: "ArraySchema_parse T S (JArray xs) = Inl (ValidationError issues)"
    and x: "x \<in> set issues"
  from z have nl: "\<not> tooLong S (length xs)" by (simp add: tooLong_def)
  show "\<not> (kind x = ''tooLong'' \<and> path x = [])"
  proof
    assume k: "kind x = ''tooLong'' \<and> path x = []"
    from run_issue_paths [where S = S and xs = xs and issues = issues and x = x and T = T]
      r x k nl show False
      by (simp add: ArraySchema_parse_def)
  qed
next
  show "ArraySchema_run T (ArraySchema_max (Finite 0) (array s)) obj = ArraySchema_run T (array s) obj"
    by (cases obj) (simp_all add: ArraySchema_run_def ArraySchema_max_def array_def
        new_ArraySchema_def tooShort_def tooLong_def)
next
  show "ArraySchema_run T (ArraySchema_length (Finite 0) (array s)) obj = ArraySchema_run T (array s) obj"
    by (cases obj) (simp_all add: ArraySchema_run_def ArraySchema_length_def array_def
        new_ArraySchema_def tooShort_def tooLong_def)
next
  assume all: "map Inr vs = map s xs"
  have item: "itemSchema (array s) = s" by (simp add: array_def new_ArraySchema_def)
  have b: "\<not> tooShort (array s) (length xs)" "\<not> tooLong (array s) (length xs)"
    by (simp_all add: tooShort_def tooLong_def array_def new_ArraySchema_def)
  have ok: "\<And>j. j < length xs \<Longrightarrow> s (xs ! j) = Inr (vs ! j)"
  proof -
    fix j assume "j < length xs"
    moreover from all have "length vs = length xs" by (metis length_map)
    ultimately show "s (xs ! j) = Inr (vs ! j)"
      using all by (metis nth_map)
  qed
  have nt: "\<And>j. j < length xs \<Longrightarrow> \<not> throws (itemSchema (array s)) (xs ! j)"
    by (simp add: item throws_def ok)
  have none: "collected_issues s xs = []"
    by (rule collected_issues_none) (simp add: ok)
  from run_no_throw [OF b nt] have "ArraySchema_parse T (array s) (JArray xs) = Inr vs"
    by (simp add: ArraySchema_parse_def item none parsed_items_all [OF all])
  moreover have "ArraySchema_run T (ArraySchema_max (Finite 0) (array s)) (JArray xs) = ArraySchema_run T (array s) (JArray xs)"
    "ArraySchema_run T (ArraySchema_length (Finite 0) (array s)) (JArray xs) = ArraySchema_run T (array s) (JArray xs)"
    by (simp_all add: ArraySchema_run_def ArraySchema_max_def ArraySchema_length_def array_def new_ArraySchema_def
        tooShort_def tooLong_def)
  ultimately show "ArraySchema_parse T (ArraySchema_max (Finite 0) (array s)) (JArray xs) = Inr vs"
    "ArraySchema_parse T (ArraySchema_length (Finite 0) (array s)) (JArray xs) = Inr vs"
    by (simp_all add: ArraySchema_parse_def)
qed


theorem zero_bound_skipped_witness:
  "ArraySchema_run no_text (ArraySchema_max (Finite 0) (array plain_boolean))
      (JArray [JBoolean True, JBoolean False, JBoolean True])
     = (Inr [JBoolean True, JBoolean False, JBoolean True], [0, 1, 2])
   \<and> ArraySchema_parse no_text (ArraySchema_length (Finite 0) (array plain_boolean)) (JArray [JBoolean True])
     = Inr [JBoolean True]"
proof -
  let ?S = "ArraySchema_max (Finite 0) (array plain_boolean)"
  let ?xs = "[JBoolean True, JBoolean False, JBoolean True]"
  have z: "maxItems ?S = Some (Finite 0)"
    by (simp add: ArraySchema_max_def new_ArraySchema_def)
  have ok: "map Inr [JBoolean True] = map plain_boolean [JBoolean True]"
    by (simp add: plain_boolean_def BooleanSchema_parse_def)
  have unbounded: "ArraySchema_run no_text (?S\<lparr>maxItems := None\<rparr>) (JArray ?xs) = (Inr ?xs, [0, 1, 2])"
    by (simp add: ArraySchema_run_def array_def new_ArraySchema_def
        ArraySchema_max_def tooShort_def tooLong_def parse_items.simps plain_boolean_def
        BooleanSchema_parse_def)
  from zero_bound_skipped [where S = ?S and n = 3 and obj = "JArray ?xs" and s = plain_boolean
      and vs = "[JBoolean True]" and xs = "[JBoolean True]" and T = no_text]
  have "ArraySchema_run no_text ?S (JArray ?xs) = ArraySchema_run no_text (?S\<lparr>maxItems := None\<rparr>) (JArray ?xs)"
    and "ArraySchema_parse no_text (ArraySchema_length (Finite 0) (array plain_boolean)) (JArray [JBoolean True])
     = Inr [JBoolean True]"
    using z ok by blast+
  with unbounded show ?thesis by simp
qed

section \<open>Properties of paths\<close>













text \<open>
  A doubled or trailing \<^verbatim>\<open>/\<close> leaves an empty segment, which has not the shape: such a
  pattern is not accepted.
\<close>

lemma empty_segment_rejected:
  "Path_new ''/abc/'' = Inl (segment_message ''/abc/'' [])
   \<and> Path_new ''/abc//def'' = Inl (segment_message ''/abc//def'' [])"
  by (simp add: Path_new_def startsWith_slash_def pattern_segments_def matches_segment_def
      token_def is_param_def is_optional_def compile_segment_def token_char_def)





lemma match_segments_captures:
  "match_segments segs cs acc = Some m \<Longrightarrow>
   m = acc ++ map_of (rev (captures segs cs)) \<and> length cs \<le> length segs"
proof (induction segs cs acc rule: match_segments.induct)
  case (1 params)
  then show ?case by simp
next
  case (2 c cs params)
  then show ?case by simp
next
  case (3 s ss params)
  then have "m = params" by (simp split: if_splits)
  moreover have "captures (s # ss) [] = []" by (cases s) simp_all
  ultimately show ?case by simp
next
  case (4 t opt ss c cs params)
  then have "c = t" and "match_segments ss cs params = Some m"
    by (simp_all split: if_splits)
  with "4.IH" show ?case by simp
next
  case (5 n opt ss c cs params)
  from "5.prems" have "match_segments ss cs (params(n \<mapsto> c)) = Some m" by simp
  from "5.IH" [OF this]
  have m: "m = params(n \<mapsto> c) ++ map_of (rev (captures ss cs))" and len: "length cs \<le> length ss"
    by blast+
  have "params(n \<mapsto> c) ++ map_of (rev (captures ss cs))
      = params ++ (map_of [(n, c)] ++ map_of (rev (captures ss cs)))"
    by (simp add: map_add_assoc [symmetric])
  moreover have "map_of (rev (captures (Param n opt # ss) (c # cs)))
      = map_of [(n, c)] ++ map_of (rev (captures ss cs))"
    by (simp only: captures.simps rev.simps map_of_append)
  ultimately have "m = params ++ map_of (rev (captures (Param n opt # ss) (c # cs)))"
    using m by (simp only:)
  with len show ?case by simp
qed

lemma captures_names:
  "fst ` set (captures segs cs) = set (param_names (take (length cs) segs))"
  by (induction segs cs rule: captures.induct) auto

lemma captures_values: "snd ` set (captures segs cs) \<subseteq> set cs"
  by (induction segs cs rule: captures.induct) auto

text \<open>
  C3: when \<^verbatim>\<open>match\<close> succeeds, the mapping it returns holds exactly the parameters among
  the pattern's segments that the candidate reached, each with the candidate's segment
  at its position, which is never empty; a parameter the candidate did not reach is not
  in the mapping. For \<^verbatim>\<open>/abc/:id?\<close>: \<^verbatim>\<open>/abc\<close> matches with the empty mapping,
  \<^verbatim>\<open>/abc/def\<close> with \<^verbatim>\<open>{id: "def"}\<close>, and \<^verbatim>\<open>/abc/def/ghi\<close> does not match.
\<close>

theorem match_reached_params:
  "(Path_match p c = Some m \<longrightarrow>
      m = map_of (rev (captures (segments p) (nonempty_segments c)))
      \<and> length (nonempty_segments c) \<le> length (segments p)
      \<and> dom m = set (param_names (take (length (nonempty_segments c)) (segments p)))
      \<and> (\<forall>n v. m n = Some v \<longrightarrow> v \<noteq> [] \<and> v \<in> set (nonempty_segments c)))
   \<and> Path_new ''/abc/:id?'' = Inr (Path [Literal ''abc'' False, Param ''id'' True])
   \<and> Path_match (Path [Literal ''abc'' False, Param ''id'' True]) ''/abc'' = Some Map.empty
   \<and> Path_match (Path [Literal ''abc'' False, Param ''id'' True]) ''/abc/def''
        = Some [''id'' \<mapsto> ''def'']
   \<and> Path_match (Path [Literal ''abc'' False, Param ''id'' True]) ''/abc/def/ghi'' = None"
proof (intro conjI impI allI)
  assume a: "Path_match p c = Some m"
  then have "match_segments (segments p) (nonempty_segments c) Map.empty = Some m"
    by (simp add: Path_match_def split: if_splits)
  from match_segments_captures [OF this]
  show m: "m = map_of (rev (captures (segments p) (nonempty_segments c)))"
    and "length (nonempty_segments c) \<le> length (segments p)" by simp_all
  show "dom m = set (param_names (take (length (nonempty_segments c)) (segments p)))"
    by (simp add: m dom_map_of_conv_image_fst captures_names)
  fix n v assume "m n = Some v"
  then have "(n, v) \<in> set (captures (segments p) (nonempty_segments c))"
    using m by (metis map_of_SomeD set_rev)
  then have "v \<in> set (nonempty_segments c)"
    using captures_values [of "segments p" "nonempty_segments c"] by force
  then show "v \<noteq> []" and "v \<in> set (nonempty_segments c)"
    by (simp_all add: nonempty_segments_def)
next
  show "Path_new ''/abc/:id?'' = Inr (Path [Literal ''abc'' False, Param ''id'' True])"
    by (simp add: Path_new_def startsWith_slash_def pattern_segments_def matches_segment_def
        token_def is_param_def is_optional_def compile_segment_def token_char_def)
next
  show "Path_match (Path [Literal ''abc'' False, Param ''id'' True]) ''/abc'' = Some Map.empty"
    by (simp add: Path_match_def startsWith_slash_def nonempty_segments_def)
next
  show "Path_match (Path [Literal ''abc'' False, Param ''id'' True]) ''/abc/def''
        = Some [''id'' \<mapsto> ''def'']"
    by (simp add: Path_match_def startsWith_slash_def nonempty_segments_def)
next
  show "Path_match (Path [Literal ''abc'' False, Param ''id'' True]) ''/abc/def/ghi'' = None"
    by (simp add: Path_match_def startsWith_slash_def nonempty_segments_def)
qed

theorem match_reached_params_witness:
  "Path_match (Path [Literal ''abc'' False, Param ''id'' True, Param ''rev'' True]) ''/abc/def''
     = Some [''id'' \<mapsto> ''def'']
   \<and> dom [''id'' \<mapsto> ''def''] = {''id''}
   \<and> [''id'' \<mapsto> ''def''] ''rev'' = None"
proof -
  let ?p = "Path [Literal ''abc'' False, Param ''id'' True, Param ''rev'' True]"
  have run: "Path_match ?p ''/abc/def'' = Some [''id'' \<mapsto> ''def'']"
    by (simp add: Path_match_def startsWith_slash_def nonempty_segments_def)
  have segs: "nonempty_segments ''/abc/def'' = [''abc'', ''def'']"
    by (simp add: nonempty_segments_def)
  from match_reached_params [of ?p "''/abc/def''" "[''id'' \<mapsto> ''def'']"] run
  have "dom [''id'' \<mapsto> ''def'']
      = set (param_names (take (length (nonempty_segments ''/abc/def'')) (segments ?p)))"
    by blast
  then have "dom [''id'' \<mapsto> ''def''] = {''id''}"
    unfolding segs by simp
  with run show ?thesis by simp
qed


end
